theory Spec2Isabelle
  imports Main "HOL-Library.Product_Lexorder"
begin

section \<open>Strings\<close>

text \<open>
  A JavaScript string is modelled as a \<^typ>\<open>string\<close>: a list of 8-bit characters, read as
  the code units U+0000 .. U+00FF. The helpers below are the string methods and the
  regular expressions the WiFi connector uses, each on that range.
\<close>

definition dquote :: char where
  "dquote = CHR 0x22"

definition backslash :: char where
  "backslash = CHR 0x5C"

definition dollar :: char where
  "dollar = CHR 0x24"

definition backtick :: char where
  "backtick = CHR 0x60"

text \<open>\<^verbatim>\<open>s.startsWith(p)\<close>\<close>

definition startsWith :: "string \<Rightarrow> string \<Rightarrow> bool" where
  "startsWith s p = (take (length p) s = p)"

text \<open>\<^verbatim>\<open>s.includes(needle)\<close>\<close>

fun includesStr :: "string \<Rightarrow> string \<Rightarrow> bool" where
  "includesStr [] needle = (needle = [])"
| "includesStr (c # cs) needle = (startsWith (c # cs) needle \<or> includesStr cs needle)"

text \<open>
  \<^verbatim>\<open>s.replace(/x/g, rep)\<close> for a one-character pattern \<open>x\<close> and a replacement text
  without a substitution pattern: every occurrence of \<open>x\<close> becomes \<open>rep\<close>.
\<close>

definition replaceAll :: "char \<Rightarrow> string \<Rightarrow> string \<Rightarrow> string" where
  "replaceAll x rep s = concat (map (\<lambda>c. if c = x then rep else [c]) s)"

text \<open>
  White space as \<^verbatim>\<open>trim()\<close> and the regular expression class \<^verbatim>\<open>\s\<close> see it, in the
  modelled range: TAB, LF, VT, FF, CR, SPACE and NBSP.
\<close>

definition isWhiteSpace :: "char \<Rightarrow> bool" where
  "isWhiteSpace c \<longleftrightarrow>
     c = CHR 0x09 \<or> c = CHR 0x0A \<or> c = CHR 0x0B \<or> c = CHR 0x0C \<or> c = CHR 0x0D \<or>
     c = CHR 0x20 \<or> c = CHR 0xA0"

definition trim :: "string \<Rightarrow> string" where
  "trim s = rev (dropWhile isWhiteSpace (rev (dropWhile isWhiteSpace s)))"

section \<open>Data model (src/types/wifi.ts)\<close>

text \<open>
  The values a field of type \<^verbatim>\<open>number\<close> holds at run time in this code: a double with an
  integer value (\<open>Num n\<close>; fractions do not arise, and the two zeros are one value), the
  two infinities, \<^verbatim>\<open>NaN\<close>, and \<^verbatim>\<open>null\<close>, which is what \<^verbatim>\<open>JSON.parse\<close> gives back for a
  number that \<^verbatim>\<open>JSON.stringify\<close> could not write.
\<close>

datatype jsNumber = Num int | PosInfinity | NegInfinity | NaN | Null

record WiFiNetwork =
  ssid :: string
  rssi :: jsNumber
  security :: string
  channel :: string
  bssid :: string
  isConnected :: bool

record CachedData =
  version :: int
  networks :: "WiFiNetwork list"
  currentSSID :: string
  timestamp :: int

section \<open>Saved passwords (src/utils/password-storage.ts)\<close>

text \<open>
  The effects of the code are recorded as a trace: a run of a shell command through
  \<^verbatim>\<open>execSync\<close>, a read of the local storage, a toast (style, title, message), and a
  write or a removal of the cache entry.
\<close>

datatype toastStyle = Animated | Success | Failure

datatype event =
    Exec string
  | GetItem string
  | ShowToast toastStyle string "string option"
  | CacheSet
  | CacheRemove

text \<open>The local storage maps a key to the text stored under it, if any.\<close>

type_synonym localStorage = "string \<Rightarrow> string option"

definition STORAGE_KEY_PREFIX :: string where
  "STORAGE_KEY_PREFIX = ''wifi-password-''"

text \<open>
  \<^verbatim>\<open>password || null\<close>: an absent item and the empty string are both falsy, so both
  give \<open>None\<close> (JavaScript's \<^verbatim>\<open>null\<close>).
\<close>

definition getSavedPassword :: "localStorage \<Rightarrow> string \<Rightarrow> string option \<times> event list" where
  "getSavedPassword storage ssid' =
     (let key = STORAGE_KEY_PREFIX @ ssid';
          password = storage key
      in ((case password of
             None \<Rightarrow> None
           | Some p \<Rightarrow> if p \<noteq> [] then Some p else None),
          [GetItem key]))"

definition hasSavedPassword :: "localStorage \<Rightarrow> string \<Rightarrow> bool" where
  "hasSavedPassword storage ssid' = (fst (getSavedPassword storage ssid') \<noteq> None)"

section \<open>Keychain lookup (src/utils/keychain.ts)\<close>

text \<open>
  \<^verbatim>\<open>JSON.stringify\<close> of a string: the text between double quotes, with the double quote,
  the backslash and the control characters below U+0020 escaped.
\<close>

definition hexDigit :: "nat \<Rightarrow> char" where
  "hexDigit n = (if n < 10 then char_of (48 + n) else char_of (87 + n))"

definition jsonEscape :: "char \<Rightarrow> string" where
  "jsonEscape c =
     (if c = dquote then [backslash, dquote]
      else if c = backslash then [backslash, backslash]
      else if c = CHR 0x08 then [backslash, CHR ''b'']
      else if c = CHR 0x09 then [backslash, CHR ''t'']
      else if c = CHR 0x0A then [backslash, CHR ''n'']
      else if c = CHR 0x0C then [backslash, CHR ''f'']
      else if c = CHR 0x0D then [backslash, CHR ''r'']
      else if (of_char c :: nat) < 32
        then [backslash, CHR ''u'', CHR ''0'', CHR ''0'',
              hexDigit ((of_char c :: nat) div 16), hexDigit ((of_char c :: nat) mod 16)]
      else [c])"

definition JSON_stringify :: "string \<Rightarrow> string" where
  "JSON_stringify s = [dquote] @ concat (map jsonEscape s) @ [dquote]"

text \<open>
  The keychain query is a shell command; \<open>sh command\<close> is \<open>Inr stdout\<close> when
  \<^verbatim>\<open>execSync\<close> returns and \<open>Inl err\<close> when it throws (the item is not found, or the user
  cancels the authentication).
\<close>

type_synonym shell = "string \<Rightarrow> string + string"

definition fetchPasswordFromKeychain :: "shell \<Rightarrow> string \<Rightarrow> string option \<times> event list" where
  "fetchPasswordFromKeychain sh ssid' =
     (let command = ''security find-generic-password -wa '' @ JSON_stringify ssid'
      in (case sh command of
            Inl err \<Rightarrow> (None, [Exec command])
          | Inr out \<Rightarrow>
              (let result = trim out
               in (if result \<noteq> [] then Some result else None, [Exec command]))))"

section \<open>Connecting (src/services/wifi-connector.ts)\<close>

record ConnectionResult =
  success :: bool
  message :: string
  requiresPassword :: "bool option"
  usedSavedPassword :: "bool option"

definition isOpenNetwork :: "WiFiNetwork \<Rightarrow> bool" where
  "isOpenNetwork network \<longleftrightarrow>
     security network = ''Open'' \<or> security network = ''OPEN'' \<or> security network = ''None''"

text \<open>
  The OS connect primitive: \<open>os command\<close> is \<open>None\<close> when \<^verbatim>\<open>execSync\<close> returns and
  \<open>Some errorMsg\<close> when it throws (a non-zero exit or the 10 s timeout), with
  \<open>errorMsg\<close> the text of \<^verbatim>\<open>String(error)\<close>.
\<close>

type_synonym connectPrimitive = "string \<Rightarrow> string option"

definition escapePassword :: "string \<Rightarrow> string" where
  "escapePassword password =
     replaceAll backtick [backslash, backtick]
       (replaceAll dollar [backslash, dollar]
         (replaceAll dquote [backslash, dquote] password))"

definition openCommand :: "string \<Rightarrow> WiFiNetwork \<Rightarrow> string" where
  "openCommand wifiInterface network =
     ''/usr/sbin/networksetup -setairportnetwork '' @ wifiInterface @ '' '' @
       [dquote] @ ssid network @ [dquote]"

definition passwordCommand :: "string \<Rightarrow> WiFiNetwork \<Rightarrow> string \<Rightarrow> string" where
  "passwordCommand wifiInterface network password =
     ''/usr/sbin/networksetup -setairportnetwork '' @ wifiInterface @ '' '' @
       [dquote] @ ssid network @ [dquote] @ '' '' @
       [dquote] @ escapePassword password @ [dquote]"

definition passwordRequired :: ConnectionResult where
  "passwordRequired =
     \<lparr>success = False, message = ''Password required for this network'',
      requiresPassword = Some True, usedSavedPassword = None\<rparr>"

text \<open>The \<^verbatim>\<open>catch\<close> block of \<^verbatim>\<open>connectToNetwork\<close>.\<close>

definition connectFailure :: "string \<Rightarrow> ConnectionResult" where
  "connectFailure errorMsg =
     (if includesStr errorMsg ''password'' \<or> includesStr errorMsg ''authentication''
      then \<lparr>success = False, message = ''Incorrect password or authentication failed'',
            requiresPassword = None, usedSavedPassword = None\<rparr>
      else if includesStr errorMsg ''network'' \<or> includesStr errorMsg ''not found''
      then \<lparr>success = False, message = ''Network not available'',
            requiresPassword = None, usedSavedPassword = None\<rparr>
      else \<lparr>success = False, message = errorMsg,
            requiresPassword = None, usedSavedPassword = None\<rparr>)"

text \<open>\<^verbatim>\<open>execSync(command, ...)\<close> and what follows it inside the \<^verbatim>\<open>try\<close>.\<close>

definition runConnect :: "connectPrimitive \<Rightarrow> WiFiNetwork \<Rightarrow> string \<Rightarrow> ConnectionResult \<times> event list" where
  "runConnect os network command =
     (case os command of
        None \<Rightarrow>
          (\<lparr>success = True, message = ''Connected to '' @ ssid network,
            requiresPassword = None, usedSavedPassword = None\<rparr>, [Exec command])
      | Some errorMsg \<Rightarrow> (connectFailure errorMsg, [Exec command]))"

text \<open>
  The optional parameter \<^verbatim>\<open>password?: string\<close> is a \<^typ>\<open>string option\<close>; the test
  \<^verbatim>\<open>else if (password)\<close> is false for \<^verbatim>\<open>undefined\<close> and for the empty string.
\<close>

definition connectToNetwork ::
  "connectPrimitive \<Rightarrow> WiFiNetwork \<Rightarrow> string \<Rightarrow> string option \<Rightarrow> ConnectionResult \<times> event list" where
  "connectToNetwork os network wifiInterface password =
     (if isOpenNetwork network then runConnect os network (openCommand wifiInterface network)
      else (case password of
              Some p \<Rightarrow>
                if p \<noteq> [] then runConnect os network (passwordCommand wifiInterface network p)
                else (passwordRequired, [])
            | None \<Rightarrow> (passwordRequired, [])))"

definition tryConnectWithSavedPassword ::
  "localStorage \<Rightarrow> connectPrimitive \<Rightarrow> WiFiNetwork \<Rightarrow> string \<Rightarrow> ConnectionResult \<times> event list" where
  "tryConnectWithSavedPassword storage os network wifiInterface =
     (if isOpenNetwork network then connectToNetwork os network wifiInterface None
      else
        (let (savedPassword, ev1) = getSavedPassword storage (ssid network)
         in (case savedPassword of
               Some p \<Rightarrow>
                 (let (result, ev2) = connectToNetwork os network wifiInterface (Some p)
                  in if success result
                     then (result\<lparr>usedSavedPassword := Some True\<rparr>, ev1 @ ev2)
                     else (\<lparr>success = False, message = ''Saved password didn't work'',
                            requiresPassword = Some True, usedSavedPassword = None\<rparr>,
                           ev1 @ ev2))
             | None \<Rightarrow> (passwordRequired, ev1))))"




definition lookupCount :: "event list \<Rightarrow> nat" where
  "lookupCount evs = length (filter (\<lambda>e. case e of GetItem k \<Rightarrow> True | _ \<Rightarrow> False) evs)"

section \<open>Scanning (src/services/wifi-scanner.ts)\<close>

text \<open>\<^verbatim>\<open>s.split("\n")\<close>: the pieces between the line feeds; the empty text is one empty piece.\<close>

fun splitLines :: "string \<Rightarrow> string list" where
  "splitLines [] = [[]]"
| "splitLines (c # cs) =
     (if c = CHR 0x0A then [] # splitLines cs
      else (case splitLines cs of
              [] \<Rightarrow> [[c]]
            | piece # pieces \<Rightarrow> (c # piece) # pieces))"

text \<open>\<^verbatim>\<open>s.split(": ")\<close>: the pieces between the occurrences of a colon and a space.\<close>

fun splitColonSpace :: "string \<Rightarrow> string list" where
  "splitColonSpace (c # d # cs) =
     (if c = CHR '':'' \<and> d = CHR '' '' then [] # splitColonSpace cs
      else (case splitColonSpace (d # cs) of
              [] \<Rightarrow> [[c]]
            | piece # pieces \<Rightarrow> (c # piece) # pieces))"
| "splitColonSpace cs = [cs]"

definition isDigit :: "char \<Rightarrow> bool" where
  "isDigit c \<longleftrightarrow> 48 \<le> (of_char c :: nat) \<and> (of_char c :: nat) \<le> 57"

text \<open>The character class \<^verbatim>\<open>[A-Za-z0-9\-_]\<close>.\<close>

definition isNameStart :: "char \<Rightarrow> bool" where
  "isNameStart c \<longleftrightarrow>
     (65 \<le> (of_char c :: nat) \<and> (of_char c :: nat) \<le> 90) \<or>
     (97 \<le> (of_char c :: nat) \<and> (of_char c :: nat) \<le> 122) \<or>
     isDigit c \<or> c = CHR ''-'' \<or> c = CHR ''_''"

text \<open>\<^verbatim>\<open>s.match(/^[A-Za-z0-9\-_]/)\<close> as a truth value.\<close>

definition matchesNameStart :: "string \<Rightarrow> bool" where
  "matchesNameStart s = (case s of [] \<Rightarrow> False | c # cs \<Rightarrow> isNameStart c)"

text \<open>\<^verbatim>\<open>s.replace(/:$/, "")\<close>: one colon at the end of the text is removed.\<close>

definition stripColon :: "string \<Rightarrow> string" where
  "stripColon s = (if s \<noteq> [] \<and> last s = CHR '':'' then butlast s else s)"

text \<open>\<^verbatim>\<open>line.search(/\S/)\<close>: the index of the first character that is not white space, or -1.\<close>

definition searchNonSpace :: "string \<Rightarrow> int" where
  "searchNonSpace line =
     (if dropWhile isWhiteSpace line = [] then - 1
      else int (length (takeWhile isWhiteSpace line)))"

text \<open>
  \<^verbatim>\<open>s.match(/-?\d+/)\<close>: the leftmost run of digits, with the minus sign that stands
  directly before it, if any.
\<close>

fun matchSigned :: "string \<Rightarrow> string option" where
  "matchSigned [] = None"
| "matchSigned (c # cs) =
     (if c = CHR ''-'' \<and> (case cs of [] \<Rightarrow> False | d # ds \<Rightarrow> isDigit d)
        then Some (c # takeWhile isDigit cs)
      else if isDigit c then Some (takeWhile isDigit (c # cs))
      else matchSigned cs)"

text \<open>
  The double nearest to a number that is a natural number, ties to the even
  significand: a number of at most 53 bits is exact, a longer one keeps its 53 leading
  bits, rounded; \<open>None\<close> when the number or its rounded value reaches 2^1024, where the
  doubles end.
\<close>

function bitLength :: "int \<Rightarrow> nat" where
  "bitLength n = (if n \<le> 0 then 0 else Suc (bitLength (n div 2)))"
  by pat_completeness auto
termination
  by (relation "measure nat") auto

definition roundToDouble :: "int \<Rightarrow> int option" where
  "roundToDouble m =
     (if 2 ^ 1024 \<le> m then None
      else if bitLength m \<le> 53 then Some m
      else
        (let e = bitLength m - 53;
             q = m div 2 ^ e;
             r = m mod 2 ^ e;
             q' = (if 2 ^ e < 2 * r \<or> (2 * r = 2 ^ e \<and> odd q) then q + 1 else q);
             v = q' * 2 ^ e
         in if 2 ^ 1024 \<le> v then None else Some v))"

text \<open>
  \<^verbatim>\<open>parseInt\<close> on a text matched by \<^verbatim>\<open>-?\d+\<close>: the double nearest to the decimal number,
  an infinity when the number is beyond the doubles. Every digit is read, as V8 does;
  the language lets an implementation read the digits after the twentieth as zeros.
\<close>

definition digitsValue :: "string \<Rightarrow> int" where
  "digitsValue ds = foldl (\<lambda>n c. 10 * n + (of_char c - 48)) 0 ds"

definition parseInt :: "string \<Rightarrow> jsNumber" where
  "parseInt s =
     (case s of
        [] \<Rightarrow> NaN
      | c # cs \<Rightarrow>
          if c = CHR ''-''
          then (case roundToDouble (digitsValue cs) of
                  None \<Rightarrow> NegInfinity
                | Some v \<Rightarrow> Num (- v))
          else (case roundToDouble (digitsValue (c # cs)) of
                  None \<Rightarrow> PosInfinity
                | Some v \<Rightarrow> Num v))"

text \<open>
  \<^verbatim>\<open>Partial<WiFiNetwork>\<close>, the entry being accumulated: a field is \<open>None\<close> while it is
  \<^verbatim>\<open>undefined\<close>. (\<^verbatim>\<open>isConnected\<close> is never set on it.)
\<close>

record PartialNetwork =
  p_ssid :: "string option"
  p_rssi :: "jsNumber option"
  p_security :: "string option"
  p_channel :: "string option"
  p_bssid :: "string option"

definition emptyEntry :: PartialNetwork where
  "emptyEntry = \<lparr>p_ssid = None, p_rssi = None, p_security = None, p_channel = None, p_bssid = None\<rparr>"

text \<open>\<^verbatim>\<open>v || d\<close> on an optional text: \<^verbatim>\<open>undefined\<close> and the empty text are falsy.\<close>

definition orElse :: "string option \<Rightarrow> string \<Rightarrow> string" where
  "orElse v d = (case v of None \<Rightarrow> d | Some s \<Rightarrow> if s \<noteq> [] then s else d)"

text \<open>The truth value of an optional text: \<^verbatim>\<open>undefined\<close> and the empty text are falsy.\<close>

definition truthy :: "string option \<Rightarrow> bool" where
  "truthy v = (case v of None \<Rightarrow> False | Some s \<Rightarrow> s \<noteq> [])"

text \<open>
  \<^verbatim>\<open>v || d\<close> on an optional number: \<^verbatim>\<open>undefined\<close>, \<^verbatim>\<open>null\<close>, zero and \<^verbatim>\<open>NaN\<close> are falsy.
\<close>

definition orElseNumber :: "jsNumber option \<Rightarrow> jsNumber \<Rightarrow> jsNumber" where
  "orElseNumber v d =
     (case v of
        None \<Rightarrow> d
      | Some (Num n) \<Rightarrow> if n \<noteq> 0 then Num n else d
      | Some PosInfinity \<Rightarrow> PosInfinity
      | Some NegInfinity \<Rightarrow> NegInfinity
      | Some NaN \<Rightarrow> d
      | Some Null \<Rightarrow> d)"

text \<open>
  \<^verbatim>\<open>if (currentEntry.ssid && currentEntry.channel) networks.push({...})\<close>: the entry is
  appended when both fields are set and not empty.
\<close>

definition pushEntry :: "string \<Rightarrow> PartialNetwork \<Rightarrow> WiFiNetwork list \<Rightarrow> WiFiNetwork list" where
  "pushEntry currentNetwork e nets =
     (case p_ssid e of
        None \<Rightarrow> nets
      | Some s \<Rightarrow>
          (case p_channel e of
             None \<Rightarrow> nets
           | Some ch \<Rightarrow>
               if s \<noteq> [] \<and> ch \<noteq> []
               then nets @
                 [\<lparr>ssid = s,
                   rssi = orElseNumber (p_rssi e) (Num (- 70)),
                   security = orElse (p_security e) ''Unknown'',
                   channel = ch,
                   bssid = orElse (p_bssid e) (s @ ''-'' @ ch),
                   isConnected = (s = currentNetwork)\<rparr>]
               else nets))"

text \<open>\<^verbatim>\<open>trimmed.split(": ")[1]?.trim()\<close>\<close>

definition propertyValue :: "string \<Rightarrow> string option" where
  "propertyValue trimmed =
     (case splitColonSpace trimmed of
        a # b # rest \<Rightarrow> Some (trim b)
      | _ \<Rightarrow> None)"

text \<open>The body of the branch for a property line.\<close>

definition setProperty :: "string \<Rightarrow> PartialNetwork \<Rightarrow> PartialNetwork" where
  "setProperty trimmed e =
     (if startsWith trimmed ''Security:''
        then e\<lparr>p_security := Some (orElse (propertyValue trimmed) ''Unknown'')\<rparr>
      else if startsWith trimmed ''Channel:''
        then (let channelPart = orElse (propertyValue trimmed) ''''
              in e\<lparr>p_channel := Some (takeWhile (\<lambda>c. \<not> isWhiteSpace c) channelPart)\<rparr>)
      else if includesStr trimmed ''Signal / Noise:''
        then e\<lparr>p_rssi := Some (case matchSigned trimmed of
                                 None \<Rightarrow> Num (- 70)
                               | Some signalMatch \<Rightarrow> parseInt signalMatch)\<rparr>
      else if startsWith trimmed ''BSSID:'' \<or> startsWith trimmed ''MAC Address:''
        then e\<lparr>p_bssid := Some (orElse (propertyValue trimmed) '''')\<rparr>
      else e)"

text \<open>The first pass: the current network.\<close>

fun findCurrentNetwork :: "bool \<Rightarrow> string list \<Rightarrow> string" where
  "findCurrentNetwork foundCurrentNetwork [] = ''''"
| "findCurrentNetwork foundCurrentNetwork (line # rest) =
     (if includesStr line ''Current Network Information:'' then findCurrentNetwork True rest
      else if foundCurrentNetwork \<and> matchesNameStart (trim line) then stripColon (trim line)
      else if foundCurrentNetwork \<and> includesStr line '':'' \<and> \<not> startsWith line ''        ''
        then ''''
      else findCurrentNetwork foundCurrentNetwork rest)"

text \<open>The second pass: the variables of the loop, and one turn of it.\<close>

record scanState =
  inNetworkSection :: bool
  currentEntry :: PartialNetwork
  networkIndent :: int
  pushed :: "WiFiNetwork list"

datatype loopStep = Continue scanState | Break scanState

definition scanLine :: "string \<Rightarrow> scanState \<Rightarrow> string \<Rightarrow> loopStep" where
  "scanLine currentNetwork st line =
     (let trimmed = trim line in
      if includesStr trimmed ''Other Local Wi-Fi Networks:''
        then Continue (st\<lparr>inNetworkSection := True\<rparr>)
      else if \<not> inNetworkSection st then Continue st
      else if (case line of [] \<Rightarrow> False | c # cs \<Rightarrow> c \<noteq> CHR '' '') \<and> includesStr line '':''
        then Break st
      else if trimmed = [] then Continue st
      else
        (let currentIndent = searchNonSpace line;
             hasPropertyFormat =
               (includesStr trimmed '': '' \<and> length (splitColonSpace trimmed) = 2)
         in if \<not> hasPropertyFormat \<and> length trimmed > 0
            then
              (let indent = (if networkIndent st = 0 then currentIndent else networkIndent st)
               in if currentIndent = indent
                  then Continue (st\<lparr>networkIndent := indent,
                                   pushed := pushEntry currentNetwork (currentEntry st) (pushed st),
                                   currentEntry := emptyEntry\<lparr>p_ssid := Some (stripColon trimmed)\<rparr>\<rparr>)
                  else Continue (st\<lparr>networkIndent := indent\<rparr>))
            else if hasPropertyFormat \<and> truthy (p_ssid (currentEntry st))
              then Continue (st\<lparr>currentEntry := setProperty trimmed (currentEntry st)\<rparr>)
            else Continue st))"

fun scanLines :: "string \<Rightarrow> scanState \<Rightarrow> string list \<Rightarrow> scanState" where
  "scanLines currentNetwork st [] = st"
| "scanLines currentNetwork st (line # rest) =
     (case scanLine currentNetwork st line of
        Continue st' \<Rightarrow> scanLines currentNetwork st' rest
      | Break st' \<Rightarrow> st')"

definition initialState :: scanState where
  "initialState =
     \<lparr>inNetworkSection = False, currentEntry = emptyEntry, networkIndent = 0, pushed = []\<rparr>"

text \<open>The list \<^verbatim>\<open>networks\<close> after the two passes and the push of the last entry.\<close>

definition parsedNetworks :: "string \<Rightarrow> WiFiNetwork list" where
  "parsedNetworks output =
     (let lines = splitLines output;
          currentNetwork = findCurrentNetwork False lines;
          st = scanLines currentNetwork initialState lines
      in pushEntry currentNetwork (currentEntry st) (pushed st))"

text \<open>\<^verbatim>\<open>self.findIndex(p)\<close>: the index of the first element for which \<open>p\<close> holds, or -1.\<close>

fun findIndex :: "('a \<Rightarrow> bool) \<Rightarrow> 'a list \<Rightarrow> int" where
  "findIndex p [] = - 1"
| "findIndex p (x # xs) =
     (if p x then 0
      else (let i = findIndex p xs in if i < 0 then - 1 else i + 1))"

definition sameNetwork :: "WiFiNetwork \<Rightarrow> WiFiNetwork \<Rightarrow> bool" where
  "sameNetwork network n \<longleftrightarrow> ssid n = ssid network \<and> channel n = channel network"

definition uniqueNetworks :: "WiFiNetwork list \<Rightarrow> WiFiNetwork list" where
  "uniqueNetworks nets =
     map snd (filter (\<lambda>(index, network). int index = findIndex (sameNetwork network) nets)
                (enumerate 0 nets))"

text \<open>
  \<^verbatim>\<open>sort((a, b) => b.rssi - a.rssi)\<close> is a stable sort that puts the greater signal
  first. On the numbers the scanner produces, finite ones and the infinities, the
  comparator orders the records as the keys below do, least key first: two equal
  infinities give \<^verbatim>\<open>NaN\<close>, which the sort takes as a tie. (\<^verbatim>\<open>null\<close> counts as 0 in the
  subtraction; with \<^verbatim>\<open>NaN\<close> the comparator is not an order, and the scanner produces
  none.)
\<close>

definition descendingKey :: "jsNumber \<Rightarrow> int \<times> int" where
  "descendingKey x =
     (case x of
        Num n \<Rightarrow> (0, - n)
      | PosInfinity \<Rightarrow> (- 1, 0)
      | NegInfinity \<Rightarrow> (1, 0)
      | NaN \<Rightarrow> (0, 0)
      | Null \<Rightarrow> (0, 0))"

record ScanResult =
  currentNetwork :: string
  availableNetworks :: "WiFiNetwork list"

text \<open>
  The report comes from \<^verbatim>\<open>execSync\<close>: \<open>Inr output\<close> when the command returns, \<open>Inl err\<close>
  when it throws (a non-zero exit, the 15 s timeout or more than 20 MB of output). The
  body of the \<^verbatim>\<open>try\<close> block gives \<open>Inl\<close> when it throws.
\<close>

definition scanBody :: "string + string \<Rightarrow> string + ScanResult" where
  "scanBody exec =
     (case exec of
        Inl err \<Rightarrow> Inl err
      | Inr output \<Rightarrow>
          Inr \<lparr>currentNetwork = findCurrentNetwork False (splitLines output),
               availableNetworks =
                 sort_key (\<lambda>n. descendingKey (rssi n)) (uniqueNetworks (parsedNetworks output))\<rparr>)"

definition scanNetworksAndGetCurrent :: "string + string \<Rightarrow> ScanResult" where
  "scanNetworksAndGetCurrent exec =
     (case scanBody exec of
        Inl err \<Rightarrow> \<lparr>currentNetwork = '''', availableNetworks = []\<rparr>
      | Inr result \<Rightarrow> result)"

text \<open>The fields an entry must have to be pushed: a name and a channel, neither empty.\<close>

definition hasRequiredFields :: "WiFiNetwork \<Rightarrow> bool" where
  "hasRequiredFields n \<longleftrightarrow> ssid n \<noteq> [] \<and> channel n \<noteq> []"

section \<open>The cache (src/utils/cache.ts)\<close>

text \<open>
  The cache holds a text under each key. \<open>Json d\<close> is a text that \<^verbatim>\<open>JSON.parse\<close> reads as
  the \<^verbatim>\<open>CachedData\<close> \<open>d\<close>; \<open>OtherText t\<close> is a text that is empty or that \<^verbatim>\<open>JSON.parse\<close>
  rejects. (A text that parses to a value of another shape is not modelled.)
\<close>

datatype cacheText = Json CachedData | OtherText string

type_synonym cacheStore = "string \<Rightarrow> cacheText option"

definition CACHE_KEY :: string where
  "CACHE_KEY = ''wifi-networks''"

definition CACHE_VERSION :: int where
  "CACHE_VERSION = 3"

definition CACHE_DURATION :: int where
  "CACHE_DURATION = 5000"

text \<open>\<open>now\<close> is the value of \<^verbatim>\<open>Date.now()\<close>, in milliseconds.\<close>

definition getCachedNetworks :: "cacheStore \<Rightarrow> int \<Rightarrow> CachedData option" where
  "getCachedNetworks cache now =
     (case cache CACHE_KEY of
        None \<Rightarrow> None
      | Some (OtherText t) \<Rightarrow> None
      | Some (Json parsed) \<Rightarrow>
          (let cacheAge = now - timestamp parsed
           in if version parsed = CACHE_VERSION \<and> cacheAge < CACHE_DURATION
              then Some parsed else None))"

text \<open>
  What \<^verbatim>\<open>JSON.parse\<close> reads from the text that \<^verbatim>\<open>JSON.stringify\<close> writes for a value:
  texts, truth values and finite numbers come back as they are; a number that is not
  finite (an infinity or \<^verbatim>\<open>NaN\<close>) is written as \<^verbatim>\<open>null\<close> and comes back as \<^verbatim>\<open>null\<close>.
\<close>

definition isFiniteNumber :: "jsNumber \<Rightarrow> bool" where
  "isFiniteNumber x = (case x of Num n \<Rightarrow> True | _ \<Rightarrow> False)"

definition jsonNumber :: "jsNumber \<Rightarrow> jsNumber" where
  "jsonNumber x = (case x of Num n \<Rightarrow> Num n | _ \<Rightarrow> Null)"

definition jsonNetwork :: "WiFiNetwork \<Rightarrow> WiFiNetwork" where
  "jsonNetwork n = n\<lparr>rssi := jsonNumber (rssi n)\<rparr>"

definition jsonCachedData :: "CachedData \<Rightarrow> CachedData" where
  "jsonCachedData d = d\<lparr>networks := map jsonNetwork (networks d)\<rparr>"

text \<open>\<^verbatim>\<open>cache.set(CACHE_KEY, JSON.stringify(data))\<close>\<close>

definition setCachedNetworks ::
  "cacheStore \<Rightarrow> int \<Rightarrow> WiFiNetwork list \<Rightarrow> string \<Rightarrow> cacheStore" where
  "setCachedNetworks cache now nets currentSSID' =
     cache(CACHE_KEY \<mapsto>
       Json (jsonCachedData
               \<lparr>version = CACHE_VERSION, networks = nets, currentSSID = currentSSID',
                timestamp = now\<rparr>))"

definition clearNetworksCache :: "cacheStore \<Rightarrow> cacheStore" where
  "clearNetworksCache cache = cache(CACHE_KEY := None)"

section \<open>Loading and connecting from the list (src/hooks/useWiFiNetworks.ts, src/index.tsx)\<close>

text \<open>The state of the command: the cache, the hook's state and the selected network.\<close>

record uiState =
  ui_cache :: cacheStore
  ui_networks :: "WiFiNetwork list"
  ui_currentSSID :: string
  ui_isLoading :: bool
  ui_selectedNetwork :: "WiFiNetwork option"

definition SCAN_COMMAND :: string where
  "SCAN_COMMAND = ''/usr/sbin/system_profiler SPAirPortDataType 2>/dev/null''"

text \<open>
  \<^verbatim>\<open>loadNetworks\<close>: \<open>exec\<close> is what the scan command gives if it is run, \<open>now\<close> the time.
  On a cache miss \<^verbatim>\<open>scanNetworksAndGetCurrent\<close> runs the scan command, then the result
  is written to the cache.
\<close>

definition loadNetworks :: "string + string \<Rightarrow> int \<Rightarrow> uiState \<Rightarrow> uiState \<times> event list" where
  "loadNetworks exec now st =
     (case getCachedNetworks (ui_cache st) now of
        Some cachedData \<Rightarrow>
          (st\<lparr>ui_networks := networks cachedData,
              ui_currentSSID := currentSSID cachedData,
              ui_isLoading := False\<rparr>, [])
      | None \<Rightarrow>
          (let result = scanNetworksAndGetCurrent exec
           in (st\<lparr>ui_currentSSID := currentNetwork result,
                  ui_networks := availableNetworks result,
                  ui_cache := setCachedNetworks (ui_cache st) now
                                (availableNetworks result) (currentNetwork result),
                  ui_isLoading := False\<rparr>, [Exec SCAN_COMMAND, CacheSet])))"

definition forceRefresh :: "string + string \<Rightarrow> int \<Rightarrow> uiState \<Rightarrow> uiState \<times> event list" where
  "forceRefresh exec now st =
     (let (st', evs) = loadNetworks exec now (st\<lparr>ui_cache := clearNetworksCache (ui_cache st)\<rparr>)
      in (st', [CacheRemove] @ evs @ [ShowToast Success ''Networks Refreshed'' None]))"

text \<open>
  \<^verbatim>\<open>handleConnect\<close>: \<open>os\<close> is the OS connect primitive and \<open>preference\<close> the configured
  interface name (\<^verbatim>\<open>preferences.wifiInterface || "en0"\<close>).
\<close>

definition handleConnect ::
  "connectPrimitive \<Rightarrow> string + string \<Rightarrow> int \<Rightarrow> string \<Rightarrow> uiState \<Rightarrow> WiFiNetwork \<Rightarrow>
     string option \<Rightarrow> uiState \<times> event list" where
  "handleConnect os exec now preference st network password =
     (let wifiInterface = orElse (Some preference) ''en0'' in
      if \<not> truthy password \<and> security network \<noteq> ''Open'' \<and> security network \<noteq> ''OPEN''
      then (st\<lparr>ui_selectedNetwork := Some network\<rparr>, [])
      else
        (let connecting = [ShowToast Animated (''Connecting to '' @ ssid network @ ''...'') None];
             (result, evs) = connectToNetwork os network wifiInterface password
         in if \<not> success result
            then (st, connecting @ evs @
                      [ShowToast Failure ''Connection Failed'' (Some (message result))])
            else
              (let succeeded = [ShowToast Success (message result) None];
                   (st', loaded) =
                     loadNetworks exec now (st\<lparr>ui_cache := clearNetworksCache (ui_cache st)\<rparr>)
               in (st'\<lparr>ui_selectedNetwork := None\<rparr>,
                   connecting @ evs @ succeeded @ [CacheRemove] @ loaded))))"

text \<open>A network as a scan reports it, for the examples below.\<close>

definition exampleNetwork :: "string \<Rightarrow> WiFiNetwork" where
  "exampleNetwork label =
     \<lparr>ssid = ''CafeWifi'', rssi = Num (- 55), security = label, channel = ''6'',
      bssid = ''CafeWifi-6'', isConnected = False\<rparr>"

text \<open>A state whose cache holds a scan written at time 1000.\<close>

definition exampleState :: uiState where
  "exampleState =
     \<lparr>ui_cache = setCachedNetworks (\<lambda>k. None) 1000 [exampleNetwork ''WPA2 Personal''] '''',
      ui_networks = [exampleNetwork ''WPA2 Personal''],
      ui_currentSSID = '''',
      ui_isLoading = False,
      ui_selectedNetwork = None\<rparr>"

text \<open>
  A report with a current network and four entries: two sightings of one network on one
  channel, with different attributes, an entry without a channel, and the same name on a
  second channel.
\<close>

definition joinLines :: "string list \<Rightarrow> string" where
  "joinLines ls = concat (map (\<lambda>l. l @ [CHR 0x0A]) ls)"

definition exampleReport :: string where
  "exampleReport = joinLines
     [''Current Network Information:'',
      ''  Cafe:'',
      ''Other Local Wi-Fi Networks:'',
      ''  Cafe:'',
      ''    Channel: 6 (2GHz)'',
      ''    Security: None'',
      ''  Cafe:'',
      ''    Channel: 6 (2GHz)'',
      ''    Security: WPA2'',
      ''  Lab:'',
      ''    Security: WPA2'',
      ''  Cafe:'',
      ''    Channel: 36'']"

text \<open>A report whose only entry has the empty name (the line is a colon) and a channel.\<close>

definition hiddenReport :: string where
  "hiddenReport = joinLines
     [''Other Local Wi-Fi Networks:'',
      ''  :'',
      ''    Channel: 11'']"

text \<open>
  A report whose only entry gives its signal as -1 followed by 309 zeros, a number
  beyond the doubles, and the record the scan makes of it.
\<close>

definition overflowReport :: string where
  "overflowReport = joinLines
     [''Other Local Wi-Fi Networks:'',
      ''  Far:'',
      ''    Channel: 1'',
      ''    Signal / Noise: -1'' @ replicate 309 (CHR ''0'') @ '' dBm'']"

definition farNetwork :: "jsNumber \<Rightarrow> WiFiNetwork" where
  "farNetwork signal =
     \<lparr>ssid = ''Far'', rssi = signal, security = ''Unknown'', channel = ''1'',
      bssid = ''Far-1'', isConnected = False\<rparr>"

section \<open>Properties of the connection code\<close>

lemma escapePassword_map:
  "escapePassword p =
     concat (map (\<lambda>c. if c = dquote \<or> c = dollar \<or> c = backtick then [backslash, c] else [c]) p)"
  by (induction p)
     (auto simp: escapePassword_def replaceAll_def dquote_def dollar_def backtick_def backslash_def)

lemma getSavedPassword_cases:
  "getSavedPassword storage s =
     ((case storage (STORAGE_KEY_PREFIX @ s) of
         None \<Rightarrow> None
       | Some p \<Rightarrow> if p \<noteq> [] then Some p else None),
      [GetItem (STORAGE_KEY_PREFIX @ s)])"
  by (simp add: getSavedPassword_def Let_def)






text \<open>
  C9, as the spec has it: for every password supplied for a secured network, the OS
  primitive is invoked with the escaped password. The empty string is a password the
  operation can be given, and for it the primitive is not invoked at all: the test
  \<^verbatim>\<open>else if (password)\<close> sends it to the branch that asks for a password.
\<close>

theorem empty_password_not_sent:
  "\<not> isOpenNetwork (exampleNetwork ''WPA2 Personal'')
   \<and> connectToNetwork (\<lambda>c. None) (exampleNetwork ''WPA2 Personal'') ''en0'' (Some '''') =
       (passwordRequired, [])"
  by (simp add: connectToNetwork_def isOpenNetwork_def exampleNetwork_def)

text \<open>
  C9, amended: for every non-empty password supplied to the connect operation for a
  secured network, every occurrence of the double quote, the dollar sign and the
  backtick in the password is prefixed with a backslash (every other character is left as
  it is), the OS primitive is invoked once, with the command that carries exactly that
  escaped password between double quotes, and no credential is looked up.
\<close>

theorem explicit_password_escaped:
  assumes "\<not> isOpenNetwork network" and "password \<noteq> []"
  shows "escapePassword password =
           concat (map (\<lambda>c. if c \<in> {dquote, dollar, backtick} then [backslash, c] else [c])
                     password)
       \<and> snd (connectToNetwork os network wifiInterface (Some password)) =
           [Exec (''/usr/sbin/networksetup -setairportnetwork '' @ wifiInterface @ '' '' @
                  [dquote] @ ssid network @ [dquote] @ '' '' @
                  [dquote] @ escapePassword password @ [dquote])]
       \<and> lookupCount (snd (connectToNetwork os network wifiInterface (Some password))) = 0"
proof -
  have esc: "escapePassword password =
      concat (map (\<lambda>c. if c \<in> {dquote, dollar, backtick} then [backslash, c] else [c]) password)"
    by (simp add: escapePassword_map)
  have run: "snd (connectToNetwork os network wifiInterface (Some password)) =
      [Exec (passwordCommand wifiInterface network password)]"
    using assms by (simp add: connectToNetwork_def runConnect_def split: option.splits)
  from esc run show ?thesis
    by (simp add: passwordCommand_def lookupCount_def)
qed

theorem explicit_password_escaped_witness:
  "escapePassword [CHR ''a'', dquote, CHR ''b'', dollar, backtick] =
     [CHR ''a'', backslash, dquote, CHR ''b'', backslash, dollar, backslash, backtick]
   \<and> snd (connectToNetwork (\<lambda>c. None) (exampleNetwork ''WPA2 Personal'') ''en0''
            (Some [CHR ''a'', dquote, CHR ''b'', dollar, backtick])) =
       [Exec (''/usr/sbin/networksetup -setairportnetwork en0 '' @ [dquote] @ ''CafeWifi'' @
              [dquote] @ '' '' @ [dquote] @
              [CHR ''a'', backslash, dquote, CHR ''b'', backslash, dollar, backslash, backtick] @
              [dquote])]"
proof -
  have secured: "\<not> isOpenNetwork (exampleNetwork ''WPA2 Personal'')"
    by (simp add: isOpenNetwork_def exampleNetwork_def)
  have nonempty: "[CHR ''a'', dquote, CHR ''b'', dollar, backtick] \<noteq> []"
    by simp
  show ?thesis
    using explicit_password_escaped [OF secured nonempty, of "\<lambda>c. None" "''en0''"]
    by (simp add: exampleNetwork_def dquote_def dollar_def backtick_def backslash_def)
qed

text \<open>
  C10: the credential lookups have no failing outcome and never give the empty string.
  \<^verbatim>\<open>fetchPasswordFromKeychain\<close> gives \<open>null\<close> when the keychain query throws and when the
  secret it prints is empty after trimming; \<^verbatim>\<open>getSavedPassword\<close> gives \<open>null\<close> when the
  stored value is absent or empty. A connection attempt therefore cannot tell an empty
  saved password from none, and on a secured network both lead to the request for a
  password.
\<close>

theorem credential_lookups_never_empty:
  "fst (fetchPasswordFromKeychain sh s) \<noteq> Some []
   \<and> ((\<exists>err. sh (''security find-generic-password -wa '' @ JSON_stringify s) = Inl err) \<longrightarrow>
        fst (fetchPasswordFromKeychain sh s) = None)
   \<and> ((\<exists>out. sh (''security find-generic-password -wa '' @ JSON_stringify s) = Inr out
              \<and> trim out = []) \<longrightarrow>
        fst (fetchPasswordFromKeychain sh s) = None)
   \<and> fst (getSavedPassword storage s) \<noteq> Some []
   \<and> (storage (STORAGE_KEY_PREFIX @ s) = None \<or> storage (STORAGE_KEY_PREFIX @ s) = Some [] \<longrightarrow>
        fst (getSavedPassword storage s) = None)
   \<and> tryConnectWithSavedPassword (storage(STORAGE_KEY_PREFIX @ ssid network \<mapsto> [])) os network
        wifiInterface =
      tryConnectWithSavedPassword (storage(STORAGE_KEY_PREFIX @ ssid network := None)) os network
        wifiInterface
   \<and> (\<not> isOpenNetwork network \<longrightarrow>
        tryConnectWithSavedPassword (storage(STORAGE_KEY_PREFIX @ ssid network \<mapsto> [])) os network
          wifiInterface =
        (passwordRequired, [GetItem (STORAGE_KEY_PREFIX @ ssid network)]))"
proof -
  have k1: "fst (fetchPasswordFromKeychain sh s) \<noteq> Some []"
    by (simp add: fetchPasswordFromKeychain_def Let_def split: sum.splits)
  have k2: "fst (fetchPasswordFromKeychain sh s) = None"
    if "\<exists>err. sh (''security find-generic-password -wa '' @ JSON_stringify s) = Inl err"
    using that by (auto simp: fetchPasswordFromKeychain_def Let_def)
  have k3: "fst (fetchPasswordFromKeychain sh s) = None"
    if "\<exists>out. sh (''security find-generic-password -wa '' @ JSON_stringify s) = Inr out
          \<and> trim out = []"
    using that by (auto simp: fetchPasswordFromKeychain_def Let_def)
  have s1: "fst (getSavedPassword storage s) \<noteq> Some []"
    by (simp add: getSavedPassword_cases split: option.splits)
  have s2: "fst (getSavedPassword storage s) = None"
    if "storage (STORAGE_KEY_PREFIX @ s) = None \<or> storage (STORAGE_KEY_PREFIX @ s) = Some []"
    using that by (auto simp: getSavedPassword_cases)
  have t1: "tryConnectWithSavedPassword (storage(STORAGE_KEY_PREFIX @ ssid network \<mapsto> [])) os
        network wifiInterface =
      tryConnectWithSavedPassword (storage(STORAGE_KEY_PREFIX @ ssid network := None)) os network
        wifiInterface"
    by (simp add: tryConnectWithSavedPassword_def getSavedPassword_cases)
  have t2: "tryConnectWithSavedPassword (storage(STORAGE_KEY_PREFIX @ ssid network \<mapsto> [])) os
        network wifiInterface = (passwordRequired, [GetItem (STORAGE_KEY_PREFIX @ ssid network)])"
    if "\<not> isOpenNetwork network"
    using that by (simp add: tryConnectWithSavedPassword_def getSavedPassword_cases)
  from k1 k2 k3 s1 s2 t1 t2 show ?thesis by blast
qed

theorem credential_lookups_never_empty_witness:
  "fst (fetchPasswordFromKeychain (\<lambda>c. Inl ''could not be found'') ''CafeWifi'') = None
   \<and> fst (fetchPasswordFromKeychain (\<lambda>c. Inr [CHR '' '', CHR 0x0A]) ''CafeWifi'') = None
   \<and> fst (getSavedPassword (\<lambda>k. Some []) ''CafeWifi'') = None
   \<and> fst (getSavedPassword (\<lambda>k. None) ''CafeWifi'') = None
   \<and> tryConnectWithSavedPassword ((\<lambda>k. None)(''wifi-password-CafeWifi'' \<mapsto> [])) (\<lambda>c. None)
        (exampleNetwork ''WPA2 Personal'') ''en0'' =
      (passwordRequired, [GetItem ''wifi-password-CafeWifi''])"
  using credential_lookups_never_empty [where sh = "\<lambda>c. Inl ''could not be found''"
      and s = "''CafeWifi''" and storage = "\<lambda>k. Some []"
      and network = "exampleNetwork ''WPA2 Personal''" and os = "\<lambda>c. None"
      and wifiInterface = "''en0''"]
    credential_lookups_never_empty [where sh = "\<lambda>c. Inr [CHR '' '', CHR 0x0A]"
      and s = "''CafeWifi''" and storage = "\<lambda>k. None"
      and network = "exampleNetwork ''WPA2 Personal''" and os = "\<lambda>c. None"
      and wifiInterface = "''en0''"]
  by (simp add: trim_def isWhiteSpace_def STORAGE_KEY_PREFIX_def exampleNetwork_def
      isOpenNetwork_def tryConnectWithSavedPassword_def getSavedPassword_cases)

section \<open>Properties of the scanner\<close>

lemma pushEntry_required:
  "list_all hasRequiredFields nets \<Longrightarrow> list_all hasRequiredFields (pushEntry cur e nets)"
  by (simp add: pushEntry_def hasRequiredFields_def split: option.splits)

lemma scanLine_required:
  assumes "list_all hasRequiredFields (pushed st)"
  shows "case scanLine cur st line of
           Continue st' \<Rightarrow> list_all hasRequiredFields (pushed st')
         | Break st' \<Rightarrow> list_all hasRequiredFields (pushed st')"
  using assms by (simp add: scanLine_def Let_def pushEntry_required)

lemma scanLines_required:
  "list_all hasRequiredFields (pushed st) \<Longrightarrow> list_all hasRequiredFields (pushed (scanLines cur st ls))"
proof (induction ls arbitrary: st)
  case Nil
  then show ?case by simp
next
  case (Cons l ls)
  from scanLine_required [OF Cons.prems, of cur l] Cons.IH show ?case
    by (cases "scanLine cur st l") simp_all
qed

lemma parsedNetworks_required: "list_all hasRequiredFields (parsedNetworks output)"
  by (simp add: parsedNetworks_def Let_def pushEntry_required scanLines_required initialState_def)

lemma set_uniqueNetworks: "set (uniqueNetworks nets) \<subseteq> set nets"
  by (auto simp: uniqueNetworks_def in_set_enumerate_eq)

lemma availableNetworks_subset:
  "set (availableNetworks (scanNetworksAndGetCurrent exec)) \<subseteq>
     (case exec of Inl err \<Rightarrow> {} | Inr output \<Rightarrow> set (parsedNetworks output))"
  using set_uniqueNetworks
  by (auto simp: scanNetworksAndGetCurrent_def scanBody_def split: sum.splits)

lemma records_required:
  "n \<in> set (availableNetworks (scanNetworksAndGetCurrent exec)) \<Longrightarrow> hasRequiredFields n"
  using availableNetworks_subset [of exec] parsedNetworks_required
  by (auto simp: list_all_iff split: sum.splits)

lemma scanLines_no_header:
  assumes "\<not> inNetworkSection st"
    and "list_all (\<lambda>l. \<not> includesStr (trim l) ''Other Local Wi-Fi Networks:'') ls"
  shows "scanLines cur st ls = st"
  using assms
  by (induction ls arbitrary: st) (simp_all add: scanLine_def Let_def)

lemma findCurrent_no_header:
  "list_all (\<lambda>l. \<not> includesStr l ''Current Network Information:'') ls \<Longrightarrow>
   findCurrentNetwork False ls = ''''"
  by (induction ls) simp_all

lemma startsWith_iff: "startsWith s p \<longleftrightarrow> (\<exists>q. s = p @ q)"
  unfolding startsWith_def
  by (metis append_eq_conv_conj append_take_drop_id)

lemma includesStr_iff: "includesStr s x \<longleftrightarrow> (\<exists>p q. s = p @ x @ q)"
proof (induction s)
  case Nil
  then show ?case by auto
next
  case (Cons c cs)
  show ?case
  proof
    assume "includesStr (c # cs) x"
    then consider "startsWith (c # cs) x" | "includesStr cs x" by auto
    then show "\<exists>p q. c # cs = p @ x @ q"
    proof cases
      case 1
      then obtain q where "c # cs = x @ q" by (auto simp: startsWith_iff)
      then have "c # cs = [] @ x @ q" by simp
      then show ?thesis by blast
    next
      case 2
      with Cons.IH obtain p q where "cs = p @ x @ q" by blast
      then have "c # cs = (c # p) @ x @ q" by simp
      then show ?thesis by blast
    qed
  next
    assume "\<exists>p q. c # cs = p @ x @ q"
    then obtain p q where pq: "c # cs = p @ x @ q" by blast
    show "includesStr (c # cs) x"
    proof (cases p)
      case Nil
      with pq have "startsWith (c # cs) x" by (auto simp: startsWith_iff)
      then show ?thesis by simp
    next
      case (Cons a p')
      with pq have "cs = p' @ x @ q" by simp
      with Cons.IH have "includesStr cs x" by blast
      then show ?thesis by simp
    qed
  qed
qed

lemma splitLines_first:
  "splitLines s = piece # pieces \<Longrightarrow> \<exists>q. s = piece @ q"
proof (induction s arbitrary: piece pieces)
  case Nil
  then show ?case by simp
next
  case (Cons c cs)
  show ?case
  proof (cases "c = CHR 0x0A")
    case True
    with Cons.prems show ?thesis by simp
  next
    case False
    show ?thesis
    proof (cases "splitLines cs")
      case Nil
      with False Cons.prems show ?thesis by auto
    next
      case (Cons first others)
      with Cons.IH obtain q where "cs = first @ q" by blast
      moreover from Cons False Cons.prems have "piece = c # first" by simp
      ultimately show ?thesis by simp
    qed
  qed
qed

lemma splitLines_piece:
  "l \<in> set (splitLines s) \<Longrightarrow> \<exists>p q. s = p @ l @ q"
proof (induction s arbitrary: l)
  case Nil
  then show ?case by simp
next
  case (Cons c cs)
  have later: "\<exists>p q. c # cs = p @ l @ q" if "l \<in> set (splitLines cs)"
  proof -
    from that Cons.IH obtain p q where "cs = p @ l @ q" by blast
    then have "c # cs = (c # p) @ l @ q" by simp
    then show ?thesis by blast
  qed
  show ?case
  proof (cases "c = CHR 0x0A")
    case True
    with Cons.prems have "l = [] \<or> l \<in> set (splitLines cs)" by simp
    then show ?thesis
    proof
      assume "l = []"
      then have "c # cs = [] @ l @ (c # cs)" by simp
      then show ?thesis by blast
    next
      assume "l \<in> set (splitLines cs)"
      then show ?thesis by (rule later)
    qed
  next
    case False
    show ?thesis
    proof (cases "splitLines cs")
      case Nil
      with False Cons.prems have "l = [c]" by simp
      then have "c # cs = [] @ l @ cs" by simp
      then show ?thesis by blast
    next
      case (Cons first others)
      with False Cons.prems have "l = c # first \<or> l \<in> set others" by simp
      then show ?thesis
      proof
        assume l: "l = c # first"
        from splitLines_first [OF Cons] obtain q where "cs = first @ q" by blast
        with l have "c # cs = [] @ l @ q" by simp
        then show ?thesis by blast
      next
        assume "l \<in> set others"
        then have "l \<in> set (splitLines cs)" using Cons by simp
        then show ?thesis by (rule later)
      qed
    qed
  qed
qed

lemma trim_piece: "\<exists>p q. l = p @ trim l @ q"
proof -
  define m where "m = dropWhile isWhiteSpace l"
  have "rev (dropWhile isWhiteSpace (rev m)) @ rev (takeWhile isWhiteSpace (rev m)) =
      rev (takeWhile isWhiteSpace (rev m) @ dropWhile isWhiteSpace (rev m))"
    by (simp only: rev_append)
  also have "\<dots> = rev (rev m)"
    by (simp only: takeWhile_dropWhile_id)
  also have "\<dots> = m"
    by simp
  finally have m: "m = trim l @ rev (takeWhile isWhiteSpace (rev m))"
    by (simp add: trim_def m_def)
  have "l = takeWhile isWhiteSpace l @ m"
    by (simp add: m_def)
  with m have "l = takeWhile isWhiteSpace l @ trim l @ rev (takeWhile isWhiteSpace (rev m))"
    by simp
  then show ?thesis by blast
qed

lemma includesStr_piece:
  assumes "s = p @ l @ q" and "includesStr l x"
  shows "includesStr s x"
proof -
  from assms(2) obtain p' q' where "l = p' @ x @ q'"
    by (auto simp: includesStr_iff)
  with assms(1) have "s = (p @ p') @ x @ (q' @ q)" by simp
  then show ?thesis unfolding includesStr_iff by blast
qed

lemma line_includes:
  assumes "l \<in> set (splitLines output)" and "includesStr l x"
  shows "includesStr output x"
  using splitLines_piece [OF assms(1)] includesStr_piece [OF _ assms(2)] by blast

lemma trimmed_line_includes:
  assumes "l \<in> set (splitLines output)" and "includesStr (trim l) x"
  shows "includesStr output x"
proof -
  from trim_piece [of l] obtain p q where "l = p @ trim l @ q" by blast
  from includesStr_piece [OF this assms(2)] have "includesStr l x" .
  with assms(1) show ?thesis by (rule line_includes)
qed

lemma no_section_no_networks:
  assumes "\<not> includesStr output ''Other Local Wi-Fi Networks:''"
  shows "parsedNetworks output = []"
proof -
  have "list_all (\<lambda>l. \<not> includesStr (trim l) ''Other Local Wi-Fi Networks:'') (splitLines output)"
    using assms trimmed_line_includes by (auto simp: list_all_iff)
  then have "scanLines cur initialState (splitLines output) = initialState" for cur
    by (intro scanLines_no_header) (simp_all add: initialState_def)
  then show ?thesis
    by (simp add: parsedNetworks_def Let_def pushEntry_def initialState_def emptyEntry_def)
qed

lemma no_section_no_current:
  assumes "\<not> includesStr output ''Current Network Information:''"
  shows "findCurrentNetwork False (splitLines output) = []"
proof -
  have "list_all (\<lambda>l. \<not> includesStr l ''Current Network Information:'') (splitLines output)"
    using assms line_includes by (auto simp: list_all_iff)
  then show ?thesis by (simp add: findCurrent_no_header)
qed

lemma uniqueNetworks_Nil: "uniqueNetworks [] = []"
  by (simp add: uniqueNetworks_def)

lemma sameNetwork_key:
  "ssid a = ssid b \<Longrightarrow> channel a = channel b \<Longrightarrow> sameNetwork a = sameNetwork b"
  by (rule ext) (simp add: sameNetwork_def)

lemma distinct_uniqueNetworks:
  "distinct (map (\<lambda>n. (ssid n, channel n)) (uniqueNetworks nets))"
proof -
  let ?keep = "\<lambda>(index, network). int index = findIndex (sameNetwork network) nets"
  let ?kept = "filter ?keep (enumerate 0 nets)"
  have d: "distinct ?kept"
    by (simp add: distinct_enumerate)
  have "inj_on (\<lambda>p. (ssid (snd p), channel (snd p))) (set ?kept)"
  proof (rule inj_onI)
    fix a b
    assume a: "a \<in> set ?kept" and b: "b \<in> set ?kept"
      and k: "(ssid (snd a), channel (snd a)) = (ssid (snd b), channel (snd b))"
    from k have "ssid (snd a) = ssid (snd b)" and "channel (snd a) = channel (snd b)"
      by simp_all
    then have same: "sameNetwork (snd a) = sameNetwork (snd b)"
      by (rule sameNetwork_key)
    from a have ia: "int (fst a) = findIndex (sameNetwork (snd a)) nets"
      and na: "snd a = nets ! fst a"
      by (auto simp: in_set_enumerate_eq)
    from b have ib: "int (fst b) = findIndex (sameNetwork (snd b)) nets"
      and nb: "snd b = nets ! fst b"
      by (auto simp: in_set_enumerate_eq)
    from ia ib same have "fst a = fst b" by simp
    with na nb show "a = b" by (simp add: prod_eq_iff)
  qed
  with d have "distinct (map (\<lambda>p. (ssid (snd p), channel (snd p))) ?kept)"
    by (simp add: distinct_map)
  then show ?thesis
    by (simp add: uniqueNetworks_def comp_def)
qed

lemma findIndex_find:
  "findIndex p xs = int i \<Longrightarrow> i < length xs \<and> find p xs = Some (xs ! i)"
proof (induction xs arbitrary: i)
  case Nil
  then show ?case by simp
next
  case (Cons x xs)
  show ?case
  proof (cases "p x")
    case True
    with Cons.prems show ?thesis by simp
  next
    case False
    with Cons.prems have neg: "\<not> findIndex p xs < 0" and i: "int i = findIndex p xs + 1"
      by (auto simp: Let_def split: if_splits)
    then obtain j where j: "findIndex p xs = int j"
      using nonneg_int_cases by (metis not_less)
    with i have "i = Suc j" by simp
    with Cons.IH [OF j] False show ?thesis by simp
  qed
qed

lemma find_findIndex:
  "find p xs = Some y \<Longrightarrow> \<exists>i. findIndex p xs = int i \<and> i < length xs \<and> xs ! i = y"
proof (induction xs)
  case Nil
  then show ?case by simp
next
  case (Cons x xs)
  show ?case
  proof (cases "p x")
    case True
    with Cons.prems show ?thesis by auto
  next
    case False
    with Cons.prems have "find p xs = Some y" by simp
    with Cons.IH obtain i where "findIndex p xs = int i" "i < length xs" "xs ! i = y" by blast
    with False have "findIndex p (x # xs) = int (Suc i) \<and> Suc i < length (x # xs) \<and> (x # xs) ! Suc i = y"
      by simp
    then show ?thesis by blast
  qed
qed

lemma uniqueNetworks_first:
  assumes "r \<in> set (uniqueNetworks nets)"
  shows "find (sameNetwork r) nets = Some r"
proof -
  from assms obtain i where "int i = findIndex (sameNetwork r) nets" and "r = nets ! i"
    by (auto simp: uniqueNetworks_def in_set_enumerate_eq)
  with findIndex_find [of "sameNetwork r" nets i] show ?thesis by simp
qed

lemma uniqueNetworks_covers:
  assumes "n \<in> set nets"
  shows "\<exists>r \<in> set (uniqueNetworks nets). find (sameNetwork n) nets = Some r"
proof -
  have "sameNetwork n n" by (simp add: sameNetwork_def)
  with assms obtain r where f: "find (sameNetwork n) nets = Some r"
    by (cases "find (sameNetwork n) nets") (auto simp: find_None_iff)
  from find_findIndex [OF f] obtain i where i: "findIndex (sameNetwork n) nets = int i"
    "i < length nets" "nets ! i = r" by blast
  from f have "sameNetwork n r" by (auto simp: find_Some_iff)
  then have "sameNetwork r = sameNetwork n"
    by (intro sameNetwork_key) (simp_all add: sameNetwork_def)
  with i have "(i, r) \<in> set (filter (\<lambda>(index, network). int index = findIndex (sameNetwork network) nets) (enumerate 0 nets))"
    by (simp add: in_set_enumerate_eq)
  then have "r \<in> set (uniqueNetworks nets)"
    unfolding uniqueNetworks_def by (metis image_eqI set_map snd_conv)
  with f show ?thesis by blast
qed

lemma available_eq:
  "availableNetworks (scanNetworksAndGetCurrent (Inr output)) =
     sort_key (\<lambda>n. descendingKey (rssi n)) (uniqueNetworks (parsedNetworks output))"
  by (simp add: scanNetworksAndGetCurrent_def scanBody_def)

lemma current_eq:
  "currentNetwork (scanNetworksAndGetCurrent (Inr output)) =
     findCurrentNetwork False (splitLines output)"
  by (simp add: scanNetworksAndGetCurrent_def scanBody_def)

lemma pushEntry_incomplete:
  "\<not> truthy (p_ssid e) \<or> \<not> truthy (p_channel e) \<Longrightarrow> pushEntry cur e nets = nets"
  by (auto simp: pushEntry_def truthy_def split: option.splits)

text \<open>
  C4: the scan-and-parse operation has a result for every outcome of the scan command
  and every report text. When the command fails or times out the result is the empty
  snapshot; on a report text the body of the operation never throws; and a report text
  without the heading of the current network and without the heading of the other
  networks gives the empty snapshot: the current network is the empty text and the list
  of records is empty.
\<close>

theorem scan_total_empty_snapshot:
  "scanNetworksAndGetCurrent (Inl err) = \<lparr>currentNetwork = '''', availableNetworks = []\<rparr>
   \<and> scanBody (Inr output) = Inr (scanNetworksAndGetCurrent (Inr output))
   \<and> (\<not> includesStr output ''Current Network Information:'' \<longrightarrow>
        currentNetwork (scanNetworksAndGetCurrent (Inr output)) = '''')
   \<and> (\<not> includesStr output ''Other Local Wi-Fi Networks:'' \<longrightarrow>
        availableNetworks (scanNetworksAndGetCurrent (Inr output)) = [])
   \<and> (\<not> includesStr output ''Current Network Information:''
        \<and> \<not> includesStr output ''Other Local Wi-Fi Networks:'' \<longrightarrow>
        scanNetworksAndGetCurrent (Inr output) =
          \<lparr>currentNetwork = '''', availableNetworks = []\<rparr>)"
proof -
  have failed: "scanNetworksAndGetCurrent (Inl err) =
      \<lparr>currentNetwork = '''', availableNetworks = []\<rparr>"
    by (simp add: scanNetworksAndGetCurrent_def scanBody_def)
  have body: "scanBody (Inr output) = Inr (scanNetworksAndGetCurrent (Inr output))"
    by (simp add: scanNetworksAndGetCurrent_def scanBody_def)
  have cur: "currentNetwork (scanNetworksAndGetCurrent (Inr output)) = ''''"
    if "\<not> includesStr output ''Current Network Information:''"
    using no_section_no_current [OF that] by (simp add: current_eq)
  have nets: "availableNetworks (scanNetworksAndGetCurrent (Inr output)) = []"
    if "\<not> includesStr output ''Other Local Wi-Fi Networks:''"
    using no_section_no_networks [OF that] by (simp add: available_eq uniqueNetworks_Nil)
  have both: "scanNetworksAndGetCurrent (Inr output) =
      \<lparr>currentNetwork = '''', availableNetworks = []\<rparr>"
    if "\<not> includesStr output ''Current Network Information:''"
      and "\<not> includesStr output ''Other Local Wi-Fi Networks:''"
    using cur [OF that(1)] nets [OF that(2)]
    by (cases "scanNetworksAndGetCurrent (Inr output)") simp
  from failed body cur nets both show ?thesis by blast
qed

theorem scan_total_empty_snapshot_witness:
  "scanNetworksAndGetCurrent (Inl ''Command failed'') =
     \<lparr>currentNetwork = '''', availableNetworks = []\<rparr>
   \<and> \<not> includesStr ''Wi-Fi: ???'' ''Current Network Information:''
   \<and> \<not> includesStr ''Wi-Fi: ???'' ''Other Local Wi-Fi Networks:''
   \<and> scanNetworksAndGetCurrent (Inr ''Wi-Fi: ???'') =
     \<lparr>currentNetwork = '''', availableNetworks = []\<rparr>"
proof -
  have a: "\<not> includesStr ''Wi-Fi: ???'' ''Current Network Information:''"
    by (simp add: startsWith_def)
  have b: "\<not> includesStr ''Wi-Fi: ???'' ''Other Local Wi-Fi Networks:''"
    by (simp add: startsWith_def)
  from a b scan_total_empty_snapshot [of "''Command failed''" "''Wi-Fi: ???''"]
  show ?thesis by simp
qed

text \<open>
  C5: for every outcome of the scan, every record of the parsed snapshot has a non-empty
  ssid and a non-empty channel; an accumulated entry that lacks either field is not
  pushed.
\<close>

theorem records_have_ssid_and_channel:
  "(\<forall>n \<in> set (availableNetworks (scanNetworksAndGetCurrent exec)).
      ssid n \<noteq> [] \<and> channel n \<noteq> [])
   \<and> (\<not> truthy (p_ssid e) \<or> \<not> truthy (p_channel e) \<longrightarrow> pushEntry cur e nets = nets)"
  using records_required [of _ exec] pushEntry_incomplete [of e cur nets]
  by (auto simp: hasRequiredFields_def)

theorem records_have_ssid_and_channel_witness:
  "availableNetworks (scanNetworksAndGetCurrent (Inr exampleReport)) =
     [\<lparr>ssid = ''Cafe'', rssi = Num (- 70), security = ''None'', channel = ''6'',
       bssid = ''Cafe-6'', isConnected = True\<rparr>,
      \<lparr>ssid = ''Cafe'', rssi = Num (- 70), security = ''Unknown'', channel = ''36'',
       bssid = ''Cafe-36'', isConnected = True\<rparr>]
   \<and> list_all (\<lambda>n. ssid n \<noteq> [] \<and> channel n \<noteq> [])
        (availableNetworks (scanNetworksAndGetCurrent (Inr exampleReport)))
   \<and> pushEntry ''Cafe'' (emptyEntry\<lparr>p_ssid := Some ''Lab'', p_security := Some ''WPA2''\<rparr>) [] = []"
proof -
  have ev: "availableNetworks (scanNetworksAndGetCurrent (Inr exampleReport)) =
     [\<lparr>ssid = ''Cafe'', rssi = Num (- 70), security = ''None'', channel = ''6'',
       bssid = ''Cafe-6'', isConnected = True\<rparr>,
      \<lparr>ssid = ''Cafe'', rssi = Num (- 70), security = ''Unknown'', channel = ''36'',
       bssid = ''Cafe-36'', isConnected = True\<rparr>]"
    by code_simp
  have lab: "\<not> truthy (p_ssid (emptyEntry\<lparr>p_ssid := Some ''Lab'', p_security := Some ''WPA2''\<rparr>))
      \<or> \<not> truthy (p_channel (emptyEntry\<lparr>p_ssid := Some ''Lab'', p_security := Some ''WPA2''\<rparr>))"
    by (simp add: truthy_def emptyEntry_def)
  from records_have_ssid_and_channel [of "Inr exampleReport"
      "emptyEntry\<lparr>p_ssid := Some ''Lab'', p_security := Some ''WPA2''\<rparr>" "''Cafe''" "[]"] lab
  have "(\<forall>n \<in> set (availableNetworks (scanNetworksAndGetCurrent (Inr exampleReport))).
      ssid n \<noteq> [] \<and> channel n \<noteq> [])"
    and "pushEntry ''Cafe'' (emptyEntry\<lparr>p_ssid := Some ''Lab'', p_security := Some ''WPA2''\<rparr>) [] = []"
    by blast+
  with ev show ?thesis by (simp add: list_all_iff)
qed

text \<open>
  C6, as the spec has it: some report with an entry whose SSID is the empty string and
  whose channel is given keeps that entry. No report does: in the report whose only
  entry is named by a lone colon, with a channel below it, the entry is dropped, and
  no report at all gives a record whose ssid is empty.
\<close>

theorem hidden_network_never_kept:
  "scanNetworksAndGetCurrent (Inr hiddenReport) = \<lparr>currentNetwork = '''', availableNetworks = []\<rparr>
   \<and> \<not> (\<exists>exec n. n \<in> set (availableNetworks (scanNetworksAndGetCurrent exec)) \<and> ssid n = '''')"
proof -
  have "scanNetworksAndGetCurrent (Inr hiddenReport) =
      \<lparr>currentNetwork = '''', availableNetworks = []\<rparr>"
    by code_simp
  moreover have "\<not> (\<exists>exec n. n \<in> set (availableNetworks (scanNetworksAndGetCurrent exec))
      \<and> ssid n = '''')"
    using records_required by (auto simp: hasRequiredFields_def)
  ultimately show ?thesis by simp
qed

text \<open>
  C6, amended: for every input report, a network entry whose SSID is the empty string is
  dropped, with or without a channel: the entry is not pushed, a property line that
  follows its name line is not attached to it, and no record of the parsed list has an
  empty ssid.
\<close>

theorem empty_ssid_dropped:
  "pushEntry cur (e\<lparr>p_ssid := Some ''''\<rparr>) nets = nets
   \<and> (inNetworkSection st \<and> p_ssid (currentEntry st) = Some ''''
        \<and> scanLine cur st line = Continue st' \<longrightarrow>
          currentEntry st' = currentEntry st \<or> p_channel (currentEntry st') = None)
   \<and> (\<forall>n \<in> set (availableNetworks (scanNetworksAndGetCurrent exec)). ssid n \<noteq> '''')"
proof -
  have push: "pushEntry cur (e\<lparr>p_ssid := Some ''''\<rparr>) nets = nets"
    by (simp add: pushEntry_def split: option.splits)
  have line: "currentEntry st' = currentEntry st \<or> p_channel (currentEntry st') = None"
    if "inNetworkSection st" and "p_ssid (currentEntry st) = Some ''''"
      and "scanLine cur st line = Continue st'"
    using that
    by (auto simp: scanLine_def Let_def truthy_def emptyEntry_def split: if_splits)
  have recs: "\<forall>n \<in> set (availableNetworks (scanNetworksAndGetCurrent exec)). ssid n \<noteq> ''''"
    using records_required [of _ exec] by (auto simp: hasRequiredFields_def)
  show ?thesis
  proof (intro conjI impI)
    show "pushEntry cur (e\<lparr>p_ssid := Some []\<rparr>) nets = nets"
      by (rule push)
  next
    assume "inNetworkSection st \<and> p_ssid (currentEntry st) = Some []
        \<and> scanLine cur st line = Continue st'"
    then have a: "inNetworkSection st" and b: "p_ssid (currentEntry st) = Some []"
      and c: "scanLine cur st line = Continue st'"
      by simp_all
    from a b c show "currentEntry st' = currentEntry st \<or> p_channel (currentEntry st') = None"
      by (rule line)
  next
    show "\<forall>n \<in> set (availableNetworks (scanNetworksAndGetCurrent exec)). ssid n \<noteq> []"
      by (rule recs)
  qed
qed

theorem empty_ssid_dropped_witness:
  "pushEntry '''' (emptyEntry\<lparr>p_channel := Some ''11'', p_ssid := Some ''''\<rparr>) [] = []
   \<and> scanLine '''' (initialState\<lparr>inNetworkSection := True, networkIndent := 2,
          currentEntry := emptyEntry\<lparr>p_ssid := Some ''''\<rparr>\<rparr>) ''    Channel: 11'' =
       Continue (initialState\<lparr>inNetworkSection := True, networkIndent := 2,
          currentEntry := emptyEntry\<lparr>p_ssid := Some ''''\<rparr>\<rparr>)
   \<and> availableNetworks (scanNetworksAndGetCurrent (Inr hiddenReport)) = []"
proof -
  have step: "scanLine '''' (initialState\<lparr>inNetworkSection := True, networkIndent := 2,
          currentEntry := emptyEntry\<lparr>p_ssid := Some ''''\<rparr>\<rparr>) ''    Channel: 11'' =
       Continue (initialState\<lparr>inNetworkSection := True, networkIndent := 2,
          currentEntry := emptyEntry\<lparr>p_ssid := Some ''''\<rparr>\<rparr>)"
    by code_simp
  have ev: "availableNetworks (scanNetworksAndGetCurrent (Inr hiddenReport)) = []"
    by code_simp
  from empty_ssid_dropped [of "''''" "emptyEntry\<lparr>p_channel := Some ''11''\<rparr>" "[]"
      "initialState\<lparr>inNetworkSection := True, networkIndent := 2,
          currentEntry := emptyEntry\<lparr>p_ssid := Some ''''\<rparr>\<rparr>" "''    Channel: 11''"
      "initialState\<lparr>inNetworkSection := True, networkIndent := 2,
          currentEntry := emptyEntry\<lparr>p_ssid := Some ''''\<rparr>\<rparr>" "Inr hiddenReport"]
  have "pushEntry '''' (emptyEntry\<lparr>p_channel := Some ''11'', p_ssid := Some ''''\<rparr>) [] = []"
    by simp
  with step ev show ?thesis by simp
qed

text \<open>
  C7: for every input report, no two records of the parsed snapshot have the same pair
  of ssid and channel. Every record is the first entry with its pair among the entries
  the report yields, with the attributes of that entry; and every pair the report yields
  is represented by its first entry.
\<close>

theorem records_unique_first_seen:
  "distinct (map (\<lambda>n. (ssid n, channel n))
       (availableNetworks (scanNetworksAndGetCurrent (Inr output))))
   \<and> (\<forall>r \<in> set (availableNetworks (scanNetworksAndGetCurrent (Inr output))).
        find (sameNetwork r) (parsedNetworks output) = Some r)
   \<and> (\<forall>n \<in> set (parsedNetworks output).
        \<exists>r \<in> set (availableNetworks (scanNetworksAndGetCurrent (Inr output))).
          find (sameNetwork n) (parsedNetworks output) = Some r)"
proof -
  let ?unique = "uniqueNetworks (parsedNetworks output)"
  let ?sorted = "sort_key (\<lambda>n. descendingKey (rssi n)) ?unique"
  have s: "set ?sorted = set ?unique"
    by simp
  from distinct_uniqueNetworks [of "parsedNetworks output"]
  have "distinct ?unique \<and> inj_on (\<lambda>n. (ssid n, channel n)) (set ?unique)"
    by (simp add: distinct_map)
  then have "distinct ?sorted \<and> inj_on (\<lambda>n. (ssid n, channel n)) (set ?sorted)"
    by simp
  then have d: "distinct (map (\<lambda>n. (ssid n, channel n)) ?sorted)"
    by (simp only: distinct_map)
  have f: "\<forall>r \<in> set ?sorted. find (sameNetwork r) (parsedNetworks output) = Some r"
    using uniqueNetworks_first s by blast
  have c: "\<forall>n \<in> set (parsedNetworks output).
      \<exists>r \<in> set ?sorted. find (sameNetwork n) (parsedNetworks output) = Some r"
    using uniqueNetworks_covers s by blast
  from d f c show ?thesis
    by (simp only: available_eq)
qed

theorem records_unique_first_seen_witness:
  "parsedNetworks exampleReport =
     [\<lparr>ssid = ''Cafe'', rssi = Num (- 70), security = ''None'', channel = ''6'',
       bssid = ''Cafe-6'', isConnected = True\<rparr>,
      \<lparr>ssid = ''Cafe'', rssi = Num (- 70), security = ''WPA2'', channel = ''6'',
       bssid = ''Cafe-6'', isConnected = True\<rparr>,
      \<lparr>ssid = ''Cafe'', rssi = Num (- 70), security = ''Unknown'', channel = ''36'',
       bssid = ''Cafe-36'', isConnected = True\<rparr>]
   \<and> availableNetworks (scanNetworksAndGetCurrent (Inr exampleReport)) =
     [\<lparr>ssid = ''Cafe'', rssi = Num (- 70), security = ''None'', channel = ''6'',
       bssid = ''Cafe-6'', isConnected = True\<rparr>,
      \<lparr>ssid = ''Cafe'', rssi = Num (- 70), security = ''Unknown'', channel = ''36'',
       bssid = ''Cafe-36'', isConnected = True\<rparr>]
   \<and> distinct (map (\<lambda>n. (ssid n, channel n))
       (availableNetworks (scanNetworksAndGetCurrent (Inr exampleReport))))"
proof -
  have p: "parsedNetworks exampleReport =
     [\<lparr>ssid = ''Cafe'', rssi = Num (- 70), security = ''None'', channel = ''6'',
       bssid = ''Cafe-6'', isConnected = True\<rparr>,
      \<lparr>ssid = ''Cafe'', rssi = Num (- 70), security = ''WPA2'', channel = ''6'',
       bssid = ''Cafe-6'', isConnected = True\<rparr>,
      \<lparr>ssid = ''Cafe'', rssi = Num (- 70), security = ''Unknown'', channel = ''36'',
       bssid = ''Cafe-36'', isConnected = True\<rparr>]"
    by code_simp
  have a: "availableNetworks (scanNetworksAndGetCurrent (Inr exampleReport)) =
     [\<lparr>ssid = ''Cafe'', rssi = Num (- 70), security = ''None'', channel = ''6'',
       bssid = ''Cafe-6'', isConnected = True\<rparr>,
      \<lparr>ssid = ''Cafe'', rssi = Num (- 70), security = ''Unknown'', channel = ''36'',
       bssid = ''Cafe-36'', isConnected = True\<rparr>]"
    by code_simp
  from records_unique_first_seen [of exampleReport]
  have "distinct (map (\<lambda>n. (ssid n, channel n))
       (availableNetworks (scanNetworksAndGetCurrent (Inr exampleReport))))"
    by blast
  with p a show ?thesis by (simp only: simp_thms)
qed

section \<open>Properties of the cache and of the connect action\<close>

lemma json_finite_networks:
  "list_all (\<lambda>n. isFiniteNumber (rssi n)) nets \<Longrightarrow> map jsonNetwork nets = nets"
  by (induction nets)
     (auto simp: jsonNetwork_def jsonNumber_def isFiniteNumber_def split: jsNumber.splits)

lemma read_after_write:
  "getCachedNetworks (setCachedNetworks cache t nets cur) t' =
     (if t' - t < 5000
      then Some \<lparr>version = CACHE_VERSION, networks = map jsonNetwork nets, currentSSID = cur,
                 timestamp = t\<rparr>
      else None)"
  by (simp add: getCachedNetworks_def setCachedNetworks_def jsonCachedData_def
      CACHE_DURATION_def)

text \<open>
  C8, as the spec has it: for every snapshot, a read right after the write returns the
  snapshot. A signal given as -1 followed by 309 zeros is read by \<^verbatim>\<open>parseInt\<close> as
  \<^verbatim>\<open>-Infinity\<close>, so the scan of such a report yields a record whose rssi is
  \<^verbatim>\<open>-Infinity\<close>; the cache entry is written with \<^verbatim>\<open>JSON.stringify\<close>, which writes
  \<^verbatim>\<open>null\<close> for it, and the read at the time of the write returns the record with rssi
  \<^verbatim>\<open>null\<close>, not the snapshot that was written.
\<close>

theorem infinite_rssi_not_round_tripped:
  "availableNetworks (scanNetworksAndGetCurrent (Inr overflowReport)) = [farNetwork NegInfinity]
   \<and> getCachedNetworks (setCachedNetworks (\<lambda>k. None) 1000 [farNetwork NegInfinity] '''') 1000 =
       Some \<lparr>version = 3, networks = [farNetwork Null], currentSSID = '''', timestamp = 1000\<rparr>
   \<and> getCachedNetworks (setCachedNetworks (\<lambda>k. None) 1000 [farNetwork NegInfinity] '''') 1000 \<noteq>
       Some \<lparr>version = 3, networks = [farNetwork NegInfinity], currentSSID = '''',
             timestamp = 1000\<rparr>"
proof -
  have scan: "availableNetworks (scanNetworksAndGetCurrent (Inr overflowReport)) =
      [farNetwork NegInfinity]"
    by code_simp
  have read: "getCachedNetworks (setCachedNetworks (\<lambda>k. None) 1000 [farNetwork NegInfinity] '''')
      1000 =
      Some \<lparr>version = 3, networks = [farNetwork Null], currentSSID = '''', timestamp = 1000\<rparr>"
    by (simp add: read_after_write CACHE_VERSION_def jsonNetwork_def jsonNumber_def
        farNetwork_def)
  have differ: "farNetwork Null \<noteq> farNetwork NegInfinity"
    by (simp add: farNetwork_def)
  from scan read differ show ?thesis by simp
qed

text \<open>
  C8, amended: for every snapshot whose signal strengths are all finite numbers, a read
  right after the write, and at any time less than 5000 ms after it, returns the snapshot
  (with the version constant and the time of the write); for every snapshot, such a read
  returns the snapshot with each signal strength that is not finite replaced by
  \<^verbatim>\<open>null\<close>. A read returns absent once 5000 ms have passed since the write, when the
  version of the stored entry is not the version constant of the code, and after the
  entry is cleared.
\<close>

theorem cache_round_trip:
  "(list_all (\<lambda>n. isFiniteNumber (rssi n)) nets \<longrightarrow>
      getCachedNetworks (setCachedNetworks cache t nets cur) t =
        Some \<lparr>version = CACHE_VERSION, networks = nets, currentSSID = cur, timestamp = t\<rparr>)
   \<and> (list_all (\<lambda>n. isFiniteNumber (rssi n)) nets \<and> t' - t < 5000 \<longrightarrow>
        getCachedNetworks (setCachedNetworks cache t nets cur) t' =
          Some \<lparr>version = CACHE_VERSION, networks = nets, currentSSID = cur, timestamp = t\<rparr>)
   \<and> (t' - t < 5000 \<longrightarrow>
        getCachedNetworks (setCachedNetworks cache t nets cur) t' =
          Some \<lparr>version = CACHE_VERSION,
                networks = map (\<lambda>n. n\<lparr>rssi := (if isFiniteNumber (rssi n) then rssi n else Null)\<rparr>) nets,
                currentSSID = cur, timestamp = t\<rparr>)
   \<and> (5000 \<le> t' - t \<longrightarrow> getCachedNetworks (setCachedNetworks cache t nets cur) t' = None)
   \<and> (version d \<noteq> CACHE_VERSION \<longrightarrow> getCachedNetworks (cache(CACHE_KEY \<mapsto> Json d)) t' = None)
   \<and> getCachedNetworks (clearNetworksCache (setCachedNetworks cache t nets cur)) t' = None
   \<and> getCachedNetworks (clearNetworksCache cache) t' = None"
proof -
  have json: "jsonNetwork = (\<lambda>n. n\<lparr>rssi := (if isFiniteNumber (rssi n) then rssi n else Null)\<rparr>)"
    by (rule ext) (simp add: jsonNetwork_def jsonNumber_def isFiniteNumber_def split: jsNumber.splits)
  have now: "getCachedNetworks (setCachedNetworks cache t nets cur) t =
      Some \<lparr>version = CACHE_VERSION, networks = nets, currentSSID = cur, timestamp = t\<rparr>"
    if "list_all (\<lambda>n. isFiniteNumber (rssi n)) nets"
    using json_finite_networks [OF that] by (simp add: read_after_write)
  have fresh: "getCachedNetworks (setCachedNetworks cache t nets cur) t' =
      Some \<lparr>version = CACHE_VERSION, networks = nets, currentSSID = cur, timestamp = t\<rparr>"
    if "list_all (\<lambda>n. isFiniteNumber (rssi n)) nets" and "t' - t < 5000"
    using json_finite_networks [OF that(1)] that(2) by (simp add: read_after_write)
  have general: "getCachedNetworks (setCachedNetworks cache t nets cur) t' =
      Some \<lparr>version = CACHE_VERSION,
            networks = map (\<lambda>n. n\<lparr>rssi := (if isFiniteNumber (rssi n) then rssi n else Null)\<rparr>) nets,
            currentSSID = cur, timestamp = t\<rparr>"
    if "t' - t < 5000"
    using that by (simp add: read_after_write json)
  have stale: "getCachedNetworks (setCachedNetworks cache t nets cur) t' = None"
    if "5000 \<le> t' - t"
    using that by (simp add: read_after_write)
  have old: "getCachedNetworks (cache(CACHE_KEY \<mapsto> Json d)) t' = None"
    if "version d \<noteq> CACHE_VERSION"
    using that by (simp add: getCachedNetworks_def)
  have cleared: "getCachedNetworks (clearNetworksCache c) t' = None" for c
    by (simp add: getCachedNetworks_def clearNetworksCache_def)
  from now fresh general stale old cleared show ?thesis by blast
qed

theorem cache_round_trip_witness:
  "getCachedNetworks (setCachedNetworks (\<lambda>k. None) 1000 [exampleNetwork ''None''] ''Cafe'') 1000 =
     Some \<lparr>version = 3, networks = [exampleNetwork ''None''], currentSSID = ''Cafe'',
           timestamp = 1000\<rparr>
   \<and> getCachedNetworks (setCachedNetworks (\<lambda>k. None) 1000 [exampleNetwork ''None''] ''Cafe'') 5999 =
     Some \<lparr>version = 3, networks = [exampleNetwork ''None''], currentSSID = ''Cafe'',
           timestamp = 1000\<rparr>
   \<and> getCachedNetworks (setCachedNetworks (\<lambda>k. None) 1000 [exampleNetwork ''None''] ''Cafe'') 6000 =
     None
   \<and> getCachedNetworks ((\<lambda>k. None)(CACHE_KEY \<mapsto>
        Json \<lparr>version = 2, networks = [], currentSSID = '''', timestamp = 1000\<rparr>)) 1000 = None"
proof -
  have finite: "list_all (\<lambda>n. isFiniteNumber (rssi n)) [exampleNetwork ''None'']"
    by (simp add: exampleNetwork_def isFiniteNumber_def)
  have v: "version \<lparr>version = 2, networks = [], currentSSID = '''', timestamp = 1000\<rparr> \<noteq> CACHE_VERSION"
    by (simp add: CACHE_VERSION_def)
  from finite v
    cache_round_trip [of "[exampleNetwork ''None'']" "\<lambda>k. None" 1000 "''Cafe''" 5999
      "\<lparr>version = 2, networks = [], currentSSID = '''', timestamp = 1000\<rparr>"]
    cache_round_trip [of "[exampleNetwork ''None'']" "\<lambda>k. None" 1000 "''Cafe''" 6000
      "\<lparr>version = 2, networks = [], currentSSID = '''', timestamp = 1000\<rparr>"]
    cache_round_trip [of "[exampleNetwork ''None'']" "\<lambda>k. None" 1000 "''Cafe''" 1000
      "\<lparr>version = 2, networks = [], currentSSID = '''', timestamp = 1000\<rparr>"]
  show ?thesis
    by (simp add: CACHE_VERSION_def)
qed

lemma cleared_reads_absent: "getCachedNetworks (clearNetworksCache cache) now = None"
  by (simp add: getCachedNetworks_def clearNetworksCache_def)

text \<open>
  C3, as the spec has it: after every connection attempt, failed or not, the cache slot
  is cleared. A secured network, a wrong password and a connect primitive that answers
  "authentication failed": the attempt fails, the entry written at time 1000 is still
  in the cache and is still returned by a read at time 2000, and the cache was not
  touched.
\<close>

theorem failed_attempt_keeps_cache:
  "\<not> success (fst (connectToNetwork (\<lambda>c. Some ''authentication failed'')
         (exampleNetwork ''WPA2 Personal'') ''en0'' (Some ''wrong'')))
   \<and> getCachedNetworks
        (ui_cache (fst (handleConnect (\<lambda>c. Some ''authentication failed'') (Inr exampleReport)
           2000 ''en0'' exampleState (exampleNetwork ''WPA2 Personal'') (Some ''wrong'')))) 2000 =
       Some \<lparr>version = 3, networks = [exampleNetwork ''WPA2 Personal''], currentSSID = '''',
             timestamp = 1000\<rparr>
   \<and> CacheRemove \<notin> set (snd (handleConnect (\<lambda>c. Some ''authentication failed'')
         (Inr exampleReport) 2000 ''en0'' exampleState (exampleNetwork ''WPA2 Personal'')
         (Some ''wrong'')))"
  by (simp add: handleConnect_def connectToNetwork_def runConnect_def connectFailure_def
      isOpenNetwork_def exampleNetwork_def exampleState_def truthy_def orElse_def
      getCachedNetworks_def setCachedNetworks_def CACHE_VERSION_def CACHE_DURATION_def
      startsWith_def jsonCachedData_def jsonNetwork_def jsonNumber_def)

text \<open>
  C3, amended: after every successful connection attempt the cache slot is cleared: the
  entry is removed, so the read that the reload makes next returns absent, and the reload
  runs the scan command and writes the result of that fresh scan. After a failed attempt the cache slot is left as it
  was. (An attempt is made when a password is given or the security label is "Open" or
  "OPEN"; otherwise the password form is shown and nothing else happens.)
\<close>

theorem cache_cleared_after_success:
  assumes "truthy password \<or> security network = ''Open'' \<or> security network = ''OPEN''"
  shows "(success (fst (connectToNetwork os network (orElse (Some preference) ''en0'') password)) \<longrightarrow>
            snd (handleConnect os exec now preference st network password) =
              [ShowToast Animated (''Connecting to '' @ ssid network @ ''...'') None] @
              snd (connectToNetwork os network (orElse (Some preference) ''en0'') password) @
              [ShowToast Success (''Connected to '' @ ssid network) None, CacheRemove,
               Exec SCAN_COMMAND, CacheSet]
            \<and> getCachedNetworks (clearNetworksCache (ui_cache st)) now = None
            \<and> ui_cache (fst (handleConnect os exec now preference st network password)) =
                setCachedNetworks (clearNetworksCache (ui_cache st)) now
                  (availableNetworks (scanNetworksAndGetCurrent exec))
                  (currentNetwork (scanNetworksAndGetCurrent exec)))
       \<and> (\<not> success (fst (connectToNetwork os network (orElse (Some preference) ''en0'') password)) \<longrightarrow>
            ui_cache (fst (handleConnect os exec now preference st network password)) = ui_cache st
            \<and> CacheRemove \<notin> set (snd (handleConnect os exec now preference st network password))
            \<and> CacheSet \<notin> set (snd (handleConnect os exec now preference st network password)))"
proof -
  obtain result evs where c:
    "connectToNetwork os network (orElse (Some preference) ''en0'') password = (result, evs)"
    by (cases "connectToNetwork os network (orElse (Some preference) ''en0'') password")
  have msg: "message result = ''Connected to '' @ ssid network" if "success result"
    using c that
    by (auto simp: connectToNetwork_def runConnect_def connectFailure_def passwordRequired_def
        split: if_splits option.splits)
  have quiet: "CacheRemove \<notin> set evs \<and> CacheSet \<notin> set evs"
    using c
    by (auto simp: connectToNetwork_def runConnect_def split: if_splits option.splits)
  have good: "snd (handleConnect os exec now preference st network password) =
        [ShowToast Animated (''Connecting to '' @ ssid network @ ''...'') None] @ evs @
        [ShowToast Success (''Connected to '' @ ssid network) None, CacheRemove,
               Exec SCAN_COMMAND, CacheSet]
      \<and> ui_cache (fst (handleConnect os exec now preference st network password)) =
          setCachedNetworks (clearNetworksCache (ui_cache st)) now
            (availableNetworks (scanNetworksAndGetCurrent exec))
            (currentNetwork (scanNetworksAndGetCurrent exec))"
    if "success result"
    using assms c that msg [OF that]
    by (auto simp: handleConnect_def Let_def loadNetworks_def cleared_reads_absent)
  have bad: "ui_cache (fst (handleConnect os exec now preference st network password)) = ui_cache st
      \<and> CacheRemove \<notin> set (snd (handleConnect os exec now preference st network password))
      \<and> CacheSet \<notin> set (snd (handleConnect os exec now preference st network password))"
    if "\<not> success result"
    using assms c that quiet
    by (auto simp: handleConnect_def Let_def)
  from good bad c show ?thesis
    by (simp add: cleared_reads_absent)
qed

theorem cache_cleared_after_success_witness:
  "success (fst (connectToNetwork (\<lambda>c. None) (exampleNetwork ''WPA2 Personal'') ''en0''
       (Some ''right'')))
   \<and> ui_cache (fst (handleConnect (\<lambda>c. None) (Inl ''timeout'') 2000 '''' exampleState
        (exampleNetwork ''WPA2 Personal'') (Some ''right''))) =
      setCachedNetworks (clearNetworksCache (ui_cache exampleState)) 2000 [] ''''
   \<and> getCachedNetworks (ui_cache (fst (handleConnect (\<lambda>c. None) (Inl ''timeout'') 2000 ''''
        exampleState (exampleNetwork ''WPA2 Personal'') (Some ''right'')))) 2000 =
      Some \<lparr>version = 3, networks = [], currentSSID = '''', timestamp = 2000\<rparr>
   \<and> ui_cache (fst (handleConnect (\<lambda>c. Some ''network not found'') (Inl ''timeout'') 2000 ''''
        exampleState (exampleNetwork ''WPA2 Personal'') (Some ''right''))) =
      ui_cache exampleState"
proof -
  have attempt: "truthy (Some ''right'') \<or> security (exampleNetwork ''WPA2 Personal'') = ''Open''
      \<or> security (exampleNetwork ''WPA2 Personal'') = ''OPEN''"
    by (simp add: truthy_def)
  have yes: "success (fst (connectToNetwork (\<lambda>c. None) (exampleNetwork ''WPA2 Personal'')
      (orElse (Some '''') ''en0'') (Some ''right'')))"
    by (simp add: connectToNetwork_def runConnect_def isOpenNetwork_def exampleNetwork_def)
  have no: "\<not> success (fst (connectToNetwork (\<lambda>c. Some ''network not found'')
      (exampleNetwork ''WPA2 Personal'') (orElse (Some '''') ''en0'') (Some ''right'')))"
    by (simp add: connectToNetwork_def runConnect_def connectFailure_def isOpenNetwork_def
        exampleNetwork_def)
  have scan: "scanNetworksAndGetCurrent (Inl ''timeout'') =
      \<lparr>currentNetwork = '''', availableNetworks = []\<rparr>"
    by (simp add: scanNetworksAndGetCurrent_def scanBody_def)
  from cache_cleared_after_success [OF attempt, of "\<lambda>c. None" "''''" "Inl ''timeout''" 2000
      exampleState] yes scan
  have a: "ui_cache (fst (handleConnect (\<lambda>c. None) (Inl ''timeout'') 2000 '''' exampleState
        (exampleNetwork ''WPA2 Personal'') (Some ''right''))) =
      setCachedNetworks (clearNetworksCache (ui_cache exampleState)) 2000 [] ''''"
    by simp
  from cache_cleared_after_success [OF attempt, of "\<lambda>c. Some ''network not found''" "''''"
      "Inl ''timeout''" 2000 exampleState] no
  have b: "ui_cache (fst (handleConnect (\<lambda>c. Some ''network not found'') (Inl ''timeout'') 2000 ''''
        exampleState (exampleNetwork ''WPA2 Personal'') (Some ''right''))) =
      ui_cache exampleState"
    by simp
  from yes a b show ?thesis
    by (simp add: orElse_def getCachedNetworks_def setCachedNetworks_def clearNetworksCache_def
        CACHE_VERSION_def CACHE_DURATION_def jsonCachedData_def)
qed

text \<open>
  The connect action of the list tests the label with "Open" and "OPEN" only: for a
  network labelled "None", which \<^verbatim>\<open>isOpenNetwork\<close> takes as open, it shows the password
  form when no password is given, and makes no attempt.
\<close>

lemma handleConnect_None_shows_form:
  "isOpenNetwork (exampleNetwork ''None'')
   \<and> handleConnect os exec now preference st (exampleNetwork ''None'') None =
       (st\<lparr>ui_selectedNetwork := Some (exampleNetwork ''None'')\<rparr>, [])"
  by (simp add: handleConnect_def isOpenNetwork_def exampleNetwork_def truthy_def)

end
